theory Spec2Isabelle
  imports Main "HOL-Library.AList" "HOL-Library.Sublist"
begin

section \<open>Data model of the purger (build/purger/purger.py)\<close>

text \<open>
  The purger keeps a ledger of the last time each account of each network was seen,
  probes the presence of the accounts that look inactive and deactivates those that
  are confirmed offline. Python dictionaries keep insertion order and have distinct
  keys; they are modelled as association lists: a lookup is \<open>map_of\<close>, an assignment
  \<open>d[k] = v\<close> is \<open>AList.update\<close> (in place for a known key, appended for a new one)
  and \<open>d.pop(k, None)\<close> is \<open>AList.delete\<close>. Python integers are unbounded: \<open>int\<close>.
\<close>

definition USER_PURGING_THRESHOLD :: int where
  "USER_PURGING_THRESHOLD = 2 * 24 * 60 * 60"

type_synonym user_activity = "(string \<times> int) list"

record UserActivityInfo =
  last_update :: int
  network_to_users :: "(string \<times> user_activity) list"

record RoomInfo =
  room_id :: string
  room_alias :: string
  server_name :: string

text \<open>
  The exceptions of the source that no handler of the purger catches, as values.
  \<open>MatrixError\<close> is caught wherever a remote call is made, so a remote call that raises
  it is the result \<open>None\<close> (or \<open>False\<close>) of the call.
\<close>

datatype py_error = KeyError | IndexError | ValueError | UnicodeDecodeError

record presence_response =
  presence :: string
  last_active_ago :: "int option"

text \<open>
  The server behind \<open>GMatrixHttpApi\<close> as the purger sees it during one pass: its answer
  to each request. \<open>netloc\<close> is \<open>urlparse(api.base_url).netloc\<close>; \<open>room_members\<close> is the
  \<open>members\<close> field of the admin request \<open>GET /rooms/<room_id>/members\<close>; \<open>deactivate\<close> is
  the admin request \<open>POST /deactivate/<user_id>\<close> with \<open>erase\<close> set, true when it does not
  raise. A presence answer has the field \<open>presence\<close>; its field \<open>last_active_ago\<close>
  (milliseconds) may be missing. The requests a function makes are returned with its
  result, in order. The clock (\<open>int(time.time())\<close>) is a parameter of the functions that
  read it; the messages the source prints and its pauses between requests are not
  modelled.
\<close>

record GMatrixHttpApi =
  netloc :: string
  get_room_id :: "string \<Rightarrow> string option"
  room_members :: "string \<Rightarrow> string list option"
  get_presence :: "string \<Rightarrow> presence_response option"
  deactivate :: "string \<Rightarrow> bool"

datatype api_call =
  GetRoomId string | GetMembers string | GetPresence string | Deactivate string

text \<open>
  What the purger takes from Python and from the raiden library: \<open>int(network_key)\<close>
  (\<open>None\<close> where it raises \<open>ValueError\<close>), \<open>str(network.value)\<close>, the alias
  \<open>make_room_alias(ChainID(n), DISCOVERY_DEFAULT_ROOM)\<close> and the values of the enumeration
  \<open>Networks\<close>.
\<close>

record environment =
  py_int :: "string \<Rightarrow> int option"
  py_str :: "int \<Rightarrow> string"
  make_room_alias :: "int \<Rightarrow> string"
  Networks :: "int list"

section \<open>Presence probe: \<open>_update_user_activity_for_network\<close>\<close>

definition last_seen_of :: "int \<Rightarrow> presence_response \<Rightarrow> int" where
  "last_seen_of current_time response =
     (let last_active_ago =
            (case last_active_ago response of
               Some millis \<Rightarrow> millis div 1000
             | None \<Rightarrow> USER_PURGING_THRESHOLD + 1)
      in current_time - last_active_ago)"

definition possible_candidates :: "user_activity \<Rightarrow> int \<Rightarrow> string list" where
  "possible_candidates user_activity deadline =
     map fst (filter (\<lambda>(user_id, last_seen). last_seen < deadline) user_activity)"

text \<open>
  The loop over the candidates. The state is the ledger segment, the due list and the
  requests made. A \<open>MatrixError\<close> of the presence request leaves the state as it is.
  The source compares \<open>user_activity[user_id]\<close>, which it has just assigned, with the
  deadline: that is \<open>last_seen\<close>. The pause of 0.1 s after each request is not modelled.
\<close>

fun probe_loop ::
  "GMatrixHttpApi \<Rightarrow> int \<Rightarrow> string list \<Rightarrow> user_activity \<times> string list \<times> api_call list
     \<Rightarrow> user_activity \<times> string list \<times> api_call list" where
  "probe_loop api current_time [] st = st"
| "probe_loop api current_time (user_id # rest) (user_activity, due_users, calls) =
     (case get_presence api user_id of
        None \<Rightarrow>
          probe_loop api current_time rest
            (user_activity, due_users, calls @ [GetPresence user_id])
      | Some response \<Rightarrow>
          (let last_seen = last_seen_of current_time response;
               user_activity' = AList.update user_id last_seen user_activity;
               due_users' =
                 (if last_seen < current_time - USER_PURGING_THRESHOLD
                     \<and> presence response = ''offline''
                  then due_users @ [user_id] else due_users)
           in probe_loop api current_time rest
                (user_activity', due_users', calls @ [GetPresence user_id])))"

definition update_user_activity_for_network ::
  "GMatrixHttpApi \<Rightarrow> user_activity \<Rightarrow> int \<Rightarrow> user_activity \<times> string list \<times> api_call list" where
  "update_user_activity_for_network api user_activity current_time =
     (let deadline = current_time - USER_PURGING_THRESHOLD
      in probe_loop api current_time (possible_candidates user_activity deadline)
           (user_activity, [], []))"

text \<open>The verdict of one probe: the account is due when the answer makes it so.\<close>

definition is_due :: "GMatrixHttpApi \<Rightarrow> int \<Rightarrow> string \<Rightarrow> bool" where
  "is_due api current_time user_id =
     (case get_presence api user_id of
        None \<Rightarrow> False
      | Some response \<Rightarrow>
          last_seen_of current_time response < current_time - USER_PURGING_THRESHOLD
            \<and> presence response = ''offline'')"

definition probed_value :: "GMatrixHttpApi \<Rightarrow> int \<Rightarrow> string \<Rightarrow> int option \<Rightarrow> int option" where
  "probed_value api current_time user_id old =
     (case get_presence api user_id of
        None \<Rightarrow> old
      | Some response \<Rightarrow> Some (last_seen_of current_time response))"

section \<open>Discovery room and membership sync\<close>

definition get_discovery_room ::
  "environment \<Rightarrow> GMatrixHttpApi \<Rightarrow> int \<Rightarrow> RoomInfo option \<times> api_call list" where
  "get_discovery_room env api network_value =
     (let server = netloc api;
          discovery_room_alias = make_room_alias env network_value;
          local_room_alias = ''#'' @ discovery_room_alias @ '':'' @ server
      in (case get_room_id api local_room_alias of
            Some rid \<Rightarrow>
              Some \<lparr>room_id = rid, room_alias = discovery_room_alias, server_name = server\<rparr>
          | None \<Rightarrow> None,
          [GetRoomId local_room_alias]))"

text \<open>
  \<open>member.split(":")\<close>: the pieces between the colons (one piece more than there are
  colons), and \<open>member.split(":")[1]\<close>, which raises \<open>IndexError\<close> when the member has no
  colon.
\<close>

fun split_on :: "char \<Rightarrow> string \<Rightarrow> string list" where
  "split_on sep [] = [[]]"
| "split_on sep (c # cs) =
     (if c = sep then [] # split_on sep cs
      else (case split_on sep cs of
              [] \<Rightarrow> [[c]]
            | w # ws \<Rightarrow> (c # w) # ws))"

definition second_piece :: "string \<Rightarrow> py_error + string" where
  "second_piece member =
     (case split_on CHR '':'' member of
        _ # piece # _ \<Rightarrow> Inr piece
      | _ \<Rightarrow> Inl IndexError)"

text \<open>
  The list comprehension that keeps the members of the local server other than the
  administrators; \<open>startswith\<close> is \<open>prefix\<close>.
\<close>

fun room_members_of :: "string \<Rightarrow> string list \<Rightarrow> py_error + string list" where
  "room_members_of server [] = Inr []"
| "room_members_of server (member # rest) =
     (case second_piece member of
        Inl e \<Rightarrow> Inl e
      | Inr piece \<Rightarrow>
          (case room_members_of server rest of
             Inl e \<Rightarrow> Inl e
           | Inr ms \<Rightarrow>
               Inr (if piece = server \<and> \<not> prefix ''@admin'' member
                    then member # ms else ms)))"

fun add_new_members :: "int \<Rightarrow> string list \<Rightarrow> user_activity \<Rightarrow> user_activity" where
  "add_new_members current_time [] user_activity = user_activity"
| "add_new_members current_time (user_id # rest) user_activity =
     add_new_members current_time rest
       (if map_of user_activity user_id = None
        then AList.update user_id (current_time - USER_PURGING_THRESHOLD - 1) user_activity
        else user_activity)"

definition fetch_new_members_for_network ::
  "GMatrixHttpApi \<Rightarrow> user_activity \<Rightarrow> RoomInfo \<Rightarrow> int
     \<Rightarrow> py_error + (user_activity \<times> api_call list)" where
  "fetch_new_members_for_network api user_activity discovery_room current_time =
     (case room_members api (room_id discovery_room) of
        None \<Rightarrow> Inr (user_activity, [GetMembers (room_id discovery_room)])
      | Some members \<Rightarrow>
          (case room_members_of (netloc api) members of
             Inl e \<Rightarrow> Inl e
           | Inr ms \<Rightarrow>
               Inr (add_new_members current_time ms user_activity,
                    [GetMembers (room_id discovery_room)])))"

section \<open>The pass over the networks: \<open>update_user_activity\<close>\<close>

text \<open>
  The body of the loop for one network. Its result is the segment of the network, the
  entry it adds to \<open>network_to_due_users\<close> (none where the source goes on to the next
  network with \<open>continue\<close>) and the requests made.
\<close>

definition network_step ::
  "environment \<Rightarrow> GMatrixHttpApi \<Rightarrow> bool \<Rightarrow> int \<Rightarrow> string \<Rightarrow> user_activity
     \<Rightarrow> py_error + (user_activity \<times> string list option \<times> api_call list)" where
  "network_step env api fetch_new_members current_time network_key user_activity =
     (if fetch_new_members then
        (case py_int env network_key of
           None \<Rightarrow> Inl ValueError
         | Some network_value \<Rightarrow>
             (case get_discovery_room env api network_value of
                (None, calls) \<Rightarrow> Inr (user_activity, None, calls)
              | (Some discovery_room, calls) \<Rightarrow>
                  (case fetch_new_members_for_network api user_activity discovery_room
                          current_time of
                     Inl e \<Rightarrow> Inl e
                   | Inr (user_activity1, calls1) \<Rightarrow>
                       (case update_user_activity_for_network api user_activity1
                               current_time of
                          (user_activity2, due_users, calls2) \<Rightarrow>
                            Inr (user_activity2, Some due_users, calls @ calls1 @ calls2)))))
      else
        (case update_user_activity_for_network api user_activity current_time of
           (user_activity2, due_users, calls2) \<Rightarrow>
             Inr (user_activity2, Some due_users, calls2)))"

fun update_networks ::
  "environment \<Rightarrow> GMatrixHttpApi \<Rightarrow> bool \<Rightarrow> int \<Rightarrow> (string \<times> user_activity) list
     \<Rightarrow> py_error +
         ((string \<times> user_activity) list \<times> (string \<times> string list) list \<times> api_call list)" where
  "update_networks env api fetch_new_members current_time [] = Inr ([], [], [])"
| "update_networks env api fetch_new_members current_time ((network_key, user_activity) # rest) =
     (case network_step env api fetch_new_members current_time network_key user_activity of
        Inl e \<Rightarrow> Inl e
      | Inr (user_activity', entry, calls) \<Rightarrow>
          (case update_networks env api fetch_new_members current_time rest of
             Inl e \<Rightarrow> Inl e
           | Inr (network_to_users', network_to_due_users, calls') \<Rightarrow>
               Inr ((network_key, user_activity') # network_to_users',
                    (case entry of
                       None \<Rightarrow> network_to_due_users
                     | Some due_users \<Rightarrow> (network_key, due_users) # network_to_due_users),
                    calls @ calls')))"

definition update_user_activity ::
  "environment \<Rightarrow> GMatrixHttpApi \<Rightarrow> UserActivityInfo \<Rightarrow> int
     \<Rightarrow> py_error + (UserActivityInfo \<times> (string \<times> string list) list \<times> api_call list)" where
  "update_user_activity env api global_user_activity current_time =
     (let last_user_activity_update = last_update global_user_activity;
          fetch_new_members =
            (last_user_activity_update < current_time - USER_PURGING_THRESHOLD);
          global_user_activity1 =
            (if fetch_new_members then global_user_activity\<lparr>last_update := current_time\<rparr>
             else global_user_activity)
      in (case update_networks env api fetch_new_members current_time
                 (network_to_users global_user_activity1) of
            Inl e \<Rightarrow> Inl e
          | Inr (network_to_users', network_to_due_users, calls) \<Rightarrow>
              Inr (global_user_activity1\<lparr>network_to_users := network_to_users'\<rparr>,
                   network_to_due_users, calls)))"

text \<open>The requests of a membership refresh: the room lookup and the member fetch.\<close>

definition is_membership_call :: "api_call \<Rightarrow> bool" where
  "is_membership_call c = (case c of GetRoomId _ \<Rightarrow> True | GetMembers _ \<Rightarrow> True | _ \<Rightarrow> False)"

section \<open>Purge: \<open>purge_inactive_users\<close>\<close>

text \<open>
  For each due account the source first reads \<open>user_activity[user_id]\<close> (for the message
  it prints), which raises \<open>KeyError\<close> for an account that is not in the segment; the
  handler of the loop catches \<open>MatrixError\<close> only. Then it sends the deactivation and, when
  that does not raise, removes the account with \<open>pop(user_id, None)\<close>.
\<close>

fun purge_inactive_users_for_network ::
  "GMatrixHttpApi \<Rightarrow> user_activity \<Rightarrow> string list \<Rightarrow> py_error + (user_activity \<times> api_call list)" where
  "purge_inactive_users_for_network api user_activity [] = Inr (user_activity, [])"
| "purge_inactive_users_for_network api user_activity (user_id # rest) =
     (case map_of user_activity user_id of
        None \<Rightarrow> Inl KeyError
      | Some last_seen \<Rightarrow>
          (case purge_inactive_users_for_network api
                  (if deactivate api user_id then AList.delete user_id user_activity
                   else user_activity) rest of
             Inl e \<Rightarrow> Inl e
           | Inr (user_activity', calls) \<Rightarrow> Inr (user_activity', Deactivate user_id # calls)))"

fun purge_inactive_users ::
  "GMatrixHttpApi \<Rightarrow> UserActivityInfo \<Rightarrow> (string \<times> string list) list
     \<Rightarrow> py_error + (UserActivityInfo \<times> api_call list)" where
  "purge_inactive_users api global_user_activity [] = Inr (global_user_activity, [])"
| "purge_inactive_users api global_user_activity ((network_key, due_users) # rest) =
     (case map_of (network_to_users global_user_activity) network_key of
        None \<Rightarrow> Inl KeyError
      | Some user_activity \<Rightarrow>
          (case purge_inactive_users_for_network api user_activity due_users of
             Inl e \<Rightarrow> Inl e
           | Inr (user_activity', calls) \<Rightarrow>
               (case purge_inactive_users api
                       (global_user_activity
                          \<lparr>network_to_users :=
                             AList.update network_key user_activity'
                               (network_to_users global_user_activity)\<rparr>) rest of
                  Inl e \<Rightarrow> Inl e
                | Inr (global_user_activity', calls') \<Rightarrow>
                    Inr (global_user_activity', calls @ calls'))))"

definition run_user_purger ::
  "environment \<Rightarrow> GMatrixHttpApi \<Rightarrow> UserActivityInfo \<Rightarrow> int
     \<Rightarrow> py_error + (UserActivityInfo \<times> api_call list)" where
  "run_user_purger env api global_user_activity current_time =
     (case update_user_activity env api global_user_activity current_time of
        Inl e \<Rightarrow> Inl e
      | Inr (global_user_activity1, due_users, calls) \<Rightarrow>
          (case purge_inactive_users api global_user_activity1 due_users of
             Inl e \<Rightarrow> Inl e
           | Inr (global_user_activity2, calls') \<Rightarrow>
               Inr (global_user_activity2, calls @ calls')))"

section \<open>Loading the ledger: the body of \<open>purge\<close>\<close>

text \<open>
  What \<open>json.loads(USER_ACTIVITY_PATH.read_text())\<close> does, by the state of the file: it
  raises \<open>FileNotFoundError\<close> (\<open>NotFound\<close>), \<open>UnicodeDecodeError\<close> (\<open>NotText\<close>: the bytes
  are not text) or \<open>JSONDecodeError\<close> (\<open>NotJSON\<close>), or it returns the document. The source
  does not validate the document. The documents modelled are the JSON objects whose
  fields \<open>last_update\<close> and \<open>network_to_users\<close> have the types \<open>UserActivityInfo\<close> declares,
  each of which may be missing (the document \<open>{}\<close> has neither).
\<close>

record stored_document =
  doc_last_update :: "int option"
  doc_network_to_users :: "(string \<times> user_activity) list option"

datatype file_state = NotFound | NotText | NotJSON | Document stored_document

definition empty_document :: "int \<Rightarrow> stored_document" where
  "empty_document start_time =
     \<lparr>doc_last_update = Some (start_time - USER_PURGING_THRESHOLD - 1),
      doc_network_to_users = Some []\<rparr>"

definition load_user_activity :: "file_state \<Rightarrow> int \<Rightarrow> py_error + stored_document" where
  "load_user_activity file start_time =
     (case file of
        Document d \<Rightarrow> Inr d
      | NotJSON \<Rightarrow> Inr (empty_document start_time)
      | NotFound \<Rightarrow> Inr (empty_document start_time)
      | NotText \<Rightarrow> Inl UnicodeDecodeError)"

text \<open>The loop that adds the networks the document does not know yet.\<close>

fun add_networks :: "environment \<Rightarrow> int list \<Rightarrow> stored_document \<Rightarrow> py_error + stored_document" where
  "add_networks env [] g = Inr g"
| "add_networks env (network # rest) g =
     (case doc_network_to_users g of
        None \<Rightarrow> Inl KeyError
      | Some segments \<Rightarrow>
          (if map_of segments (py_str env network) \<noteq> None
           then add_networks env rest g
           else add_networks env rest
                  (g\<lparr>doc_network_to_users :=
                       Some (AList.update (py_str env network) [] segments)\<rparr>)))"

text \<open>
  \<open>update_user_activity\<close> reads \<open>global_user_activity["last_update"]\<close> and then
  \<open>global_user_activity["network_to_users"]\<close> before it makes any request: a missing field
  is a \<open>KeyError\<close>.
\<close>

definition as_UserActivityInfo :: "stored_document \<Rightarrow> py_error + UserActivityInfo" where
  "as_UserActivityInfo g =
     (case doc_last_update g of
        None \<Rightarrow> Inl KeyError
      | Some t \<Rightarrow>
          (case doc_network_to_users g of
             None \<Rightarrow> Inl KeyError
           | Some segments \<Rightarrow>
               Inr \<lparr>last_update = t, network_to_users = segments\<rparr>))"

text \<open>
  The body of \<open>purge\<close> between the login and the restart of the containers: the result is
  the document written back to the file and the requests made. \<open>start_time\<close> is the clock
  when the empty ledger is built, \<open>current_time\<close> the clock read by \<open>update_user_activity\<close>.
\<close>

definition purge ::
  "environment \<Rightarrow> GMatrixHttpApi \<Rightarrow> file_state \<Rightarrow> int \<Rightarrow> int
     \<Rightarrow> py_error + (UserActivityInfo \<times> api_call list)" where
  "purge env api file start_time current_time =
     (case load_user_activity file start_time of
        Inl e \<Rightarrow> Inl e
      | Inr g \<Rightarrow>
          (case add_networks env (Networks env) g of
             Inl e \<Rightarrow> Inl e
           | Inr g1 \<Rightarrow>
               (case as_UserActivityInfo g1 of
                  Inl e \<Rightarrow> Inl e
                | Inr global_user_activity \<Rightarrow>
                    run_user_purger env api global_user_activity current_time)))"

section \<open>Concrete servers and ledgers\<close>

text \<open>
  A server that reports \<open>@a:s\<close> offline and idle for 900000 s, \<open>@c:s\<close> online and active
  5 s ago, \<open>@e:s\<close> offline with no \<open>last_active_ago\<close>, and fails on every other presence
  request; it knows no room and accepts every deactivation.
\<close>

definition example_api :: GMatrixHttpApi where
  "example_api =
     \<lparr>netloc = ''s'',
      get_room_id = (\<lambda>_. None),
      room_members = (\<lambda>_. None),
      get_presence =
        (\<lambda>u. if u = ''@a:s'' then Some \<lparr>presence = ''offline'', last_active_ago = Some 900000000\<rparr>
             else if u = ''@c:s'' then Some \<lparr>presence = ''online'', last_active_ago = Some 5999\<rparr>
             else if u = ''@e:s'' then Some \<lparr>presence = ''offline'', last_active_ago = None\<rparr>
             else None),
      deactivate = (\<lambda>_. True)\<rparr>"

definition example_segment :: user_activity where
  "example_segment =
     [(''@a:s'', 0), (''@b:s'', 999999), (''@c:s'', 7), (''@d:s'', 8), (''@e:s'', 9)]"

definition example_segment_probed :: user_activity where
  "example_segment_probed =
     [(''@a:s'', 100000), (''@b:s'', 999999), (''@c:s'', 999995), (''@d:s'', 8),
      (''@e:s'', 827199)]"

text \<open>
  One network, with chain id 1 and key \<open>"1"\<close>; a second server that also has the
  discovery room of that network, with two local members, a remote one and an
  administrator; a ledger whose refresh is long due; and the JSON document \<open>{}\<close>.
\<close>

definition example_env :: environment where
  "example_env =
     \<lparr>py_int = (\<lambda>s. if s = ''1'' then Some 1 else None),
      py_str = (\<lambda>n. if n = 1 then ''1'' else ''0''),
      make_room_alias = (\<lambda>n. if n = 1 then ''raiden_mainnet_discovery'' else ''raiden_discovery''),
      Networks = [1]\<rparr>"

definition example_room_api :: GMatrixHttpApi where
  "example_room_api =
     example_api
       \<lparr>get_room_id := (\<lambda>a. if a = ''#raiden_mainnet_discovery:s'' then Some ''!r:s'' else None),
        room_members :=
          (\<lambda>r. if r = ''!r:s'' then Some [''@a:s'', ''@n:s'', ''@x:t'', ''@admin:s''] else None)\<rparr>"

definition example_room :: RoomInfo where
  "example_room = \<lparr>room_id = ''!r:s'', room_alias = ''raiden_mainnet_discovery'', server_name = ''s''\<rparr>"

definition example_ledger :: UserActivityInfo where
  "example_ledger = \<lparr>last_update = 0, network_to_users = [(''1'', example_segment)]\<rparr>"

definition empty_object :: stored_document where
  "empty_object = \<lparr>doc_last_update = None, doc_network_to_users = None\<rparr>"

text \<open>
  Two networks, with keys \<open>"1"\<close> and \<open>"5"\<close>, on a server that has the discovery room of
  the second only; the account \<open>@a:s\<close> is in the segments of both.
\<close>

definition two_network_env :: environment where
  "two_network_env =
     \<lparr>py_int = (\<lambda>s. if s = ''1'' then Some 1 else if s = ''5'' then Some 5 else None),
      py_str = (\<lambda>n. if n = 1 then ''1'' else ''5''),
      make_room_alias =
        (\<lambda>n. if n = 1 then ''raiden_mainnet_discovery'' else ''raiden_goerli_discovery''),
      Networks = [1, 5]\<rparr>"

definition two_network_api :: GMatrixHttpApi where
  "two_network_api =
     example_api
       \<lparr>get_room_id := (\<lambda>a. if a = ''#raiden_goerli_discovery:s'' then Some ''!g:s'' else None),
        room_members := (\<lambda>r. if r = ''!g:s'' then Some [''@n:s''] else None)\<rparr>"

definition two_network_ledger :: UserActivityInfo where
  "two_network_ledger =
     \<lparr>last_update = 0,
      network_to_users = [(''1'', example_segment), (''5'', [(''@a:s'', 0)])]\<rparr>"







section \<open>Properties of the probe\<close>

lemma probe_loop_calls:
  "snd (snd (probe_loop api t us (ua, due, calls))) = calls @ map GetPresence us"
  by (induction us arbitrary: ua due calls)
     (simp_all add: Let_def split: option.splits)

lemma probe_loop_due:
  "fst (snd (probe_loop api t us (ua, due, calls))) = due @ filter (is_due api t) us"
  by (induction us arbitrary: ua due calls)
     (simp_all add: Let_def is_due_def split: option.splits)

lemma probe_loop_lookup:
  "map_of (fst (probe_loop api t us (ua, due, calls))) u =
     (if u \<in> set us then probed_value api t u (map_of ua u) else map_of ua u)"
  by (induction us arbitrary: ua due calls)
     (auto simp: Let_def probed_value_def update_conv' split: option.splits)

lemma probe_loop_keys:
  "set us \<subseteq> fst ` set ua \<Longrightarrow>
     map fst (fst (probe_loop api t us (ua, due, calls))) = map fst ua"
proof (induction us arbitrary: ua due calls)
  case Nil
  then show ?case by simp
next
  case (Cons v vs)
  have keep: "map fst (AList.update v x ua) = map fst ua" for x
    using Cons.prems by (simp add: update_keys)
  have sub: "set vs \<subseteq> fst ` set (AList.update v x ua)" for x
    using Cons.prems by (auto simp: dom_update)
  show ?case
  proof (cases "get_presence api v")
    case None
    with Cons show ?thesis by simp
  next
    case (Some r)
    with Cons.IH [OF sub] keep show ?thesis by (simp add: Let_def)
  qed
qed

lemma possible_candidates_iff:
  "distinct (map fst ua) \<Longrightarrow>
     u \<in> set (possible_candidates ua d) \<longleftrightarrow> (\<exists>ls. map_of ua u = Some ls \<and> ls < d)"
  by (auto simp: possible_candidates_def image_iff dest: map_of_SomeD)

lemma possible_candidates_keys:
  "set (possible_candidates ua d) \<subseteq> fst ` set ua"
  by (auto simp: possible_candidates_def)

lemma possible_candidates_distinct:
  "distinct (map fst ua) \<Longrightarrow> distinct (possible_candidates ua d)"
  by (simp add: possible_candidates_def distinct_map_filter)

lemma probe_result:
  assumes "update_user_activity_for_network api ua t = (ua', due, calls)"
  shows "calls = map GetPresence (possible_candidates ua (t - USER_PURGING_THRESHOLD))"
    and "due = filter (is_due api t) (possible_candidates ua (t - USER_PURGING_THRESHOLD))"
    and "map_of ua' u =
          (if u \<in> set (possible_candidates ua (t - USER_PURGING_THRESHOLD))
           then probed_value api t u (map_of ua u) else map_of ua u)"
    and "map fst ua' = map fst ua"
proof -
  let ?cs = "possible_candidates ua (t - USER_PURGING_THRESHOLD)"
  have run: "probe_loop api t ?cs (ua, [], []) = (ua', due, calls)"
    using assms by (simp add: update_user_activity_for_network_def)
  show "calls = map GetPresence ?cs"
    using probe_loop_calls [of api t ?cs ua "[]" "[]"] run by simp
  show "due = filter (is_due api t) ?cs"
    using probe_loop_due [of api t ?cs ua "[]" "[]"] run by simp
  show "map_of ua' u = (if u \<in> set ?cs then probed_value api t u (map_of ua u) else map_of ua u)"
    using probe_loop_lookup [of api t ?cs ua "[]" "[]" u] run by simp
  show "map fst ua' = map fst ua"
    using probe_loop_keys [OF possible_candidates_keys, of api t ua "t - USER_PURGING_THRESHOLD" "[]" "[]"] run
    by simp
qed

lemma example_probe:
  "update_user_activity_for_network example_api example_segment 1000000 =
     (example_segment_probed, [''@a:s'', ''@e:s''],
      [GetPresence ''@a:s'', GetPresence ''@c:s'', GetPresence ''@d:s'', GetPresence ''@e:s''])"
  by (simp add: update_user_activity_for_network_def possible_candidates_def example_api_def
        example_segment_def example_segment_probed_def last_seen_of_def
        USER_PURGING_THRESHOLD_def Let_def)

lemma example_segment_distinct: "distinct (map fst example_segment)"
  by (simp add: example_segment_def)

text \<open>
  Claim C2. In a ledger segment (a dictionary: distinct keys) at time \<open>t\<close>, every request
  of the probe is a presence request for an account whose stored time is below the
  deadline \<open>t - USER_PURGING_THRESHOLD\<close>; every account of the due list was such a
  candidate, its presence request succeeded with presence \<open>offline\<close>, and the time stored
  for it after the update is still below the deadline. So no account whose time is at or
  above the deadline is in the due list.
\<close>

theorem probe_only_candidates_due_only_offline:
  assumes "distinct (map fst ua)"
    and "update_user_activity_for_network api ua t = (ua', due, calls)"
  shows "(\<forall>c \<in> set calls. \<exists>u ls. c = GetPresence u \<and> map_of ua u = Some ls
              \<and> ls < t - USER_PURGING_THRESHOLD)
       \<and> (\<forall>u \<in> set due. \<exists>r ls ls'.
              map_of ua u = Some ls \<and> ls < t - USER_PURGING_THRESHOLD
            \<and> get_presence api u = Some r \<and> presence r = ''offline''
            \<and> map_of ua' u = Some ls' \<and> ls' = last_seen_of t r
            \<and> ls' < t - USER_PURGING_THRESHOLD)
       \<and> (\<forall>u ls. map_of ua' u = Some ls \<and> t - USER_PURGING_THRESHOLD \<le> ls \<longrightarrow> u \<notin> set due)"
proof -
  let ?d = "t - USER_PURGING_THRESHOLD"
  note r = probe_result [OF assms(2)]
  have cand: "u \<in> set (possible_candidates ua ?d) \<longleftrightarrow> (\<exists>ls. map_of ua u = Some ls \<and> ls < ?d)" for u
    by (rule possible_candidates_iff [OF assms(1)])
  have A: "\<forall>c \<in> set calls. \<exists>u ls. c = GetPresence u \<and> map_of ua u = Some ls \<and> ls < ?d"
    using r(1) cand by auto
  have B: "\<exists>r ls ls'. map_of ua u = Some ls \<and> ls < ?d
            \<and> get_presence api u = Some r \<and> presence r = ''offline''
            \<and> map_of ua' u = Some ls' \<and> ls' = last_seen_of t r \<and> ls' < ?d"
    if "u \<in> set due" for u
  proof -
    from that r(2) have c: "u \<in> set (possible_candidates ua ?d)" and d: "is_due api t u"
      by auto
    from c cand obtain ls where ls: "map_of ua u = Some ls" "ls < ?d" by auto
    from d obtain rr where rr: "get_presence api u = Some rr" "presence rr = ''offline''"
        "last_seen_of t rr < ?d"
      by (auto simp: is_due_def split: option.splits)
    have "map_of ua' u = Some (last_seen_of t rr)"
      using r(3) [of u] c rr(1) by (simp add: probed_value_def)
    with ls rr show ?thesis by auto
  qed
  have C: "\<forall>u ls. map_of ua' u = Some ls \<and> ?d \<le> ls \<longrightarrow> u \<notin> set due"
    using B by fastforce
  from A B C show ?thesis by blast
qed

theorem probe_only_candidates_due_only_offline_witness:
  "distinct (map fst example_segment)
   \<and> update_user_activity_for_network example_api example_segment 1000000 =
       (example_segment_probed, [''@a:s'', ''@e:s''],
        [GetPresence ''@a:s'', GetPresence ''@c:s'', GetPresence ''@d:s'',
         GetPresence ''@e:s''])
   \<and> (\<exists>r ls ls'.
          map_of example_segment ''@a:s'' = Some ls \<and> ls < 1000000 - USER_PURGING_THRESHOLD
        \<and> get_presence example_api ''@a:s'' = Some r \<and> presence r = ''offline''
        \<and> map_of example_segment_probed ''@a:s'' = Some ls' \<and> ls' = last_seen_of 1000000 r
        \<and> ls' < 1000000 - USER_PURGING_THRESHOLD)"
proof -
  from probe_only_candidates_due_only_offline [OF example_segment_distinct example_probe]
  have "\<forall>u \<in> set [''@a:s'', ''@e:s'']. \<exists>r ls ls'.
          map_of example_segment u = Some ls \<and> ls < 1000000 - USER_PURGING_THRESHOLD
        \<and> get_presence example_api u = Some r \<and> presence r = ''offline''
        \<and> map_of example_segment_probed u = Some ls' \<and> ls' = last_seen_of 1000000 r
        \<and> ls' < 1000000 - USER_PURGING_THRESHOLD"
    by blast
  with example_segment_distinct example_probe show ?thesis by simp
qed

text \<open>
  Claim C5. When the presence request for a candidate \<open>m\<close> fails with a remote error, the
  probe still requests the presence of every candidate, in order; the time stored for
  \<open>m\<close> is left as it was, \<open>m\<close> is not due and it is a candidate again at any later time;
  every candidate whose request succeeds gets its time updated and is in the due list
  exactly when the updated time is below the deadline and its presence is \<open>offline\<close>.
\<close>

theorem probe_failure_isolated:
  assumes "distinct (map fst ua)"
    and "update_user_activity_for_network api ua t = (ua', due, calls)"
    and "m \<in> set (possible_candidates ua (t - USER_PURGING_THRESHOLD))"
    and "get_presence api m = None"
  shows "calls = map GetPresence (possible_candidates ua (t - USER_PURGING_THRESHOLD))
       \<and> map_of ua' m = map_of ua m
       \<and> m \<notin> set due
       \<and> (\<forall>t'. t \<le> t' \<longrightarrow> m \<in> set (possible_candidates ua' (t' - USER_PURGING_THRESHOLD)))
       \<and> (\<forall>u \<in> set (possible_candidates ua (t - USER_PURGING_THRESHOLD)).
            \<forall>r. get_presence api u = Some r \<longrightarrow>
              map_of ua' u = Some (last_seen_of t r)
              \<and> (u \<in> set due \<longleftrightarrow>
                   last_seen_of t r < t - USER_PURGING_THRESHOLD \<and> presence r = ''offline''))"
proof -
  let ?d = "t - USER_PURGING_THRESHOLD"
  note r = probe_result [OF assms(2)]
  have dist': "distinct (map fst ua')"
    using r(4) assms(1) by simp
  have same: "map_of ua' m = map_of ua m"
    using r(3) [of m] assms(4) by (simp add: probed_value_def)
  have notdue: "m \<notin> set due"
    using r(2) assms(4) by (simp add: is_due_def)
  from assms(3) obtain ls where ls: "map_of ua m = Some ls" "ls < ?d"
    using possible_candidates_iff [OF assms(1)] by blast
  have later: "m \<in> set (possible_candidates ua' (t' - USER_PURGING_THRESHOLD))" if "t \<le> t'" for t'
  proof -
    have "map_of ua' m = Some ls \<and> ls < t' - USER_PURGING_THRESHOLD"
      using same ls that by simp
    then show ?thesis
      using possible_candidates_iff [OF dist'] by blast
  qed
  have others: "map_of ua' u = Some (last_seen_of t rr)
      \<and> (u \<in> set due \<longleftrightarrow> last_seen_of t rr < ?d \<and> presence rr = ''offline'')"
    if "u \<in> set (possible_candidates ua ?d)" "get_presence api u = Some rr" for u rr
    using r(3) [of u] r(2) that by (simp add: probed_value_def is_due_def)
  from r(1) same notdue later others show ?thesis by blast
qed

theorem probe_failure_isolated_witness:
  "distinct (map fst example_segment)
   \<and> update_user_activity_for_network example_api example_segment 1000000 =
       (example_segment_probed, [''@a:s'', ''@e:s''],
        [GetPresence ''@a:s'', GetPresence ''@c:s'', GetPresence ''@d:s'',
         GetPresence ''@e:s''])
   \<and> ''@d:s'' \<in> set (possible_candidates example_segment (1000000 - USER_PURGING_THRESHOLD))
   \<and> get_presence example_api ''@d:s'' = None
   \<and> map_of example_segment_probed ''@d:s'' = map_of example_segment ''@d:s''
   \<and> ''@d:s'' \<notin> set [''@a:s'', ''@e:s'']
   \<and> ''@d:s'' \<in> set (possible_candidates example_segment_probed (1000000 - USER_PURGING_THRESHOLD))"
proof -
  have c: "''@d:s'' \<in> set (possible_candidates example_segment (1000000 - USER_PURGING_THRESHOLD))"
    by (simp add: possible_candidates_def example_segment_def USER_PURGING_THRESHOLD_def)
  have p: "get_presence example_api ''@d:s'' = None"
    by (simp add: example_api_def)
  from probe_failure_isolated [OF example_segment_distinct example_probe c p]
    example_segment_distinct example_probe c p
  show ?thesis by simp
qed

text \<open>
  Claim C9. For a candidate whose presence request succeeds, the stored time becomes
  \<open>t\<close> minus \<open>last_active_ago\<close> in whole seconds: the milliseconds divided by 1000 and
  rounded down, or \<open>USER_PURGING_THRESHOLD + 1\<close> when the answer has no such field; in
  that last case an account reported \<open>offline\<close> is due.
\<close>

theorem probe_sets_last_seen:
  assumes "update_user_activity_for_network api ua t = (ua', due, calls)"
    and "u \<in> set (possible_candidates ua (t - USER_PURGING_THRESHOLD))"
    and "get_presence api u = Some r"
  shows "map_of ua' u =
           Some (t - (case last_active_ago r of
                        Some millis \<Rightarrow> millis div 1000
                      | None \<Rightarrow> USER_PURGING_THRESHOLD + 1))
       \<and> (\<forall>millis. last_active_ago r = Some millis \<longrightarrow>
             1000 * (millis div 1000) \<le> millis \<and> millis < 1000 * (millis div 1000) + 1000)
       \<and> (last_active_ago r = None \<and> presence r = ''offline'' \<longrightarrow> u \<in> set due)"
proof -
  note p = probe_result [OF assms(1)]
  have a: "map_of ua' u = Some (last_seen_of t r)"
    using p(3) [of u] assms(2,3) by (simp add: probed_value_def)
  have b: "1000 * (millis div 1000) \<le> millis \<and> millis < 1000 * (millis div 1000) + 1000"
    for millis :: int
    by presburger
  have c: "u \<in> set due" if "last_active_ago r = None" "presence r = ''offline''"
    using p(2) assms(2,3) that by (simp add: is_due_def last_seen_of_def)
  from a b c show ?thesis
    by (simp add: last_seen_of_def)
qed

theorem probe_sets_last_seen_witness:
  "update_user_activity_for_network example_api example_segment 1000000 =
       (example_segment_probed, [''@a:s'', ''@e:s''],
        [GetPresence ''@a:s'', GetPresence ''@c:s'', GetPresence ''@d:s'',
         GetPresence ''@e:s''])
   \<and> ''@e:s'' \<in> set (possible_candidates example_segment (1000000 - USER_PURGING_THRESHOLD))
   \<and> get_presence example_api ''@e:s'' = Some \<lparr>presence = ''offline'', last_active_ago = None\<rparr>
   \<and> map_of example_segment_probed ''@e:s'' = Some (1000000 - (USER_PURGING_THRESHOLD + 1))
   \<and> ''@e:s'' \<in> set [''@a:s'', ''@e:s'']"
proof -
  have c: "''@e:s'' \<in> set (possible_candidates example_segment (1000000 - USER_PURGING_THRESHOLD))"
    by (simp add: possible_candidates_def example_segment_def USER_PURGING_THRESHOLD_def)
  have p: "get_presence example_api ''@e:s'' = Some \<lparr>presence = ''offline'', last_active_ago = None\<rparr>"
    by (simp add: example_api_def)
  from probe_sets_last_seen [OF example_probe c p] example_probe c p
  show ?thesis by simp
qed

section \<open>Properties of the membership sync\<close>

lemma add_new_members_lookup:
  "map_of (add_new_members t ms ua) u =
     (if map_of ua u = None \<and> u \<in> set ms then Some (t - USER_PURGING_THRESHOLD - 1)
      else map_of ua u)"
  by (induction ms arbitrary: ua) (auto simp: update_conv')

lemma add_new_members_known:
  "\<forall>m \<in> set ms. map_of ua m \<noteq> None \<Longrightarrow> add_new_members t ms ua = ua"
  by (induction ms arbitrary: ua) auto

lemma add_new_members_idem:
  "add_new_members t' ms (add_new_members t ms ua) = add_new_members t ms ua"
  by (rule add_new_members_known) (simp add: add_new_members_lookup)

lemma add_new_members_distinct:
  "distinct (map fst ua) \<Longrightarrow> distinct (map fst (add_new_members t ms ua))"
  by (induction ms arbitrary: ua) (auto simp: distinct_update)


lemma fetch_new_members_cases:
  assumes "fetch_new_members_for_network api ua room t = Inr (ua1, calls)"
  shows "calls = [GetMembers (room_id room)]"
    and "(room_members api (room_id room) = None \<and> ua1 = ua)
       \<or> (\<exists>members ms. room_members api (room_id room) = Some members
             \<and> room_members_of (netloc api) members = Inr ms
             \<and> ua1 = add_new_members t ms ua)"
  using assms
  by (auto simp: fetch_new_members_for_network_def split: option.splits sum.splits)

text \<open>
  Claim C7. When a membership sync of a segment succeeds, a second sync with the same
  member list (at any time) returns the segment it is given, unchanged; and the first
  sync keeps the time of every account the segment already had.
\<close>

theorem membership_sync_idempotent:
  assumes "fetch_new_members_for_network api ua room t = Inr (ua1, calls)"
  shows "fetch_new_members_for_network api ua1 room t' = Inr (ua1, calls)
       \<and> (\<forall>u v. map_of ua u = Some v \<longrightarrow> map_of ua1 u = Some v)"
proof -
  note c = fetch_new_members_cases [OF assms]
  from c(2) show ?thesis
  proof
    assume "room_members api (room_id room) = None \<and> ua1 = ua"
    with c(1) show ?thesis
      by (simp add: fetch_new_members_for_network_def)
  next
    assume "\<exists>members ms. room_members api (room_id room) = Some members
             \<and> room_members_of (netloc api) members = Inr ms
             \<and> ua1 = add_new_members t ms ua"
    then obtain members ms where m: "room_members api (room_id room) = Some members"
        "room_members_of (netloc api) members = Inr ms" "ua1 = add_new_members t ms ua"
      by blast
    have "fetch_new_members_for_network api ua1 room t' = Inr (ua1, calls)"
      using m c(1) by (simp add: fetch_new_members_for_network_def add_new_members_idem)
    moreover have "\<forall>u v. map_of ua u = Some v \<longrightarrow> map_of ua1 u = Some v"
      using m(3) by (simp add: add_new_members_lookup)
    ultimately show ?thesis by blast
  qed
qed

lemma example_sync:
  "fetch_new_members_for_network example_room_api example_segment example_room 1000000 =
     Inr (example_segment @ [(''@n:s'', 827199)], [GetMembers ''!r:s''])"
  by (simp add: fetch_new_members_for_network_def example_room_api_def example_api_def
        example_room_def example_segment_def second_piece_def USER_PURGING_THRESHOLD_def)

theorem membership_sync_idempotent_witness:
  "fetch_new_members_for_network example_room_api example_segment example_room 1000000 =
     Inr (example_segment @ [(''@n:s'', 827199)], [GetMembers ''!r:s''])
   \<and> fetch_new_members_for_network example_room_api (example_segment @ [(''@n:s'', 827199)])
        example_room 2000000 =
     Inr (example_segment @ [(''@n:s'', 827199)], [GetMembers ''!r:s''])
   \<and> map_of (example_segment @ [(''@n:s'', 827199)]) ''@a:s'' = Some 0"
proof -
  have "map_of example_segment ''@a:s'' = Some 0"
    by (simp add: example_segment_def)
  with membership_sync_idempotent [OF example_sync, of 2000000] example_sync
  show ?thesis by blast
qed

section \<open>Properties of the pass\<close>

lemma network_step_no_fetch:
  "network_step env api False t nk ua = Inr (ua', entry, calls) \<Longrightarrow>
     \<not> (\<exists>c \<in> set calls. is_membership_call c)"
  by (auto simp: network_step_def is_membership_call_def split: prod.splits
      dest!: probe_result(1))

lemma update_networks_no_fetch:
  "update_networks env api False t nets = Inr (nets', dues, calls) \<Longrightarrow>
     \<not> (\<exists>c \<in> set calls. is_membership_call c)"
proof (induction nets arbitrary: nets' dues calls)
  case Nil
  then show ?case by simp
next
  case (Cons a nets)
  obtain nk ua where a: "a = (nk, ua)" by (cases a)
  from Cons.prems a obtain ua' entry c1 n2 d2 c2 where
    s: "network_step env api False t nk ua = Inr (ua', entry, c1)"
    and r: "update_networks env api False t nets = Inr (n2, d2, c2)"
    and c: "calls = c1 @ c2"
    by (auto split: sum.splits prod.splits)
  from network_step_no_fetch [OF s] Cons.IH [OF r] c show ?case by auto
qed

lemma update_networks_keys:
  "update_networks env api f t nets = Inr (nets', dues, calls) \<Longrightarrow>
     map fst nets' = map fst nets"
  by (induction nets arbitrary: nets' dues calls) (auto split: sum.splits prod.splits)

lemma purge_for_network_calls:
  "purge_inactive_users_for_network api ua due = Inr (ua', calls) \<Longrightarrow>
     calls = map Deactivate due"
  by (induction due arbitrary: ua ua' calls) (auto split: option.splits sum.splits if_splits)

lemma purge_inactive_users_result:
  "purge_inactive_users api g dues = Inr (g', calls) \<Longrightarrow>
     last_update g' = last_update g \<and> \<not> (\<exists>c \<in> set calls. is_membership_call c)"
proof (induction dues arbitrary: g g' calls)
  case Nil
  then show ?case by simp
next
  case (Cons a dues)
  obtain nk due where a: "a = (nk, due)" by (cases a)
  from Cons.prems a obtain ua ua' c1 c2 where
    p: "purge_inactive_users_for_network api ua due = Inr (ua', c1)"
    and r: "purge_inactive_users api
              (g\<lparr>network_to_users := AList.update nk ua' (network_to_users g)\<rparr>) dues = Inr (g', c2)"
    and c: "calls = c1 @ c2"
    by (auto split: option.splits sum.splits prod.splits)
  from purge_for_network_calls [OF p] Cons.IH [OF r] c show ?case
    by (auto simp: is_membership_call_def)
qed

lemma update_user_activity_result:
  assumes "update_user_activity env api g t = Inr (g', dues, calls)"
  shows "last_update g' = (if last_update g < t - USER_PURGING_THRESHOLD then t else last_update g)"
    and "\<not> last_update g < t - USER_PURGING_THRESHOLD \<Longrightarrow> \<not> (\<exists>c \<in> set calls. is_membership_call c)"
    and "map fst (network_to_users g') = map fst (network_to_users g)"
  using assms
  by (auto simp: update_user_activity_def Let_def split: sum.splits prod.splits if_splits
      dest: update_networks_no_fetch update_networks_keys)

lemma run_user_purger_result:
  assumes "run_user_purger env api g t = Inr (g', calls)"
  shows "last_update g' = (if last_update g < t - USER_PURGING_THRESHOLD then t else last_update g)"
    and "\<not> last_update g < t - USER_PURGING_THRESHOLD \<Longrightarrow> \<not> (\<exists>c \<in> set calls. is_membership_call c)"
proof -
  from assms obtain g1 dues c1 c2 where
    u: "update_user_activity env api g t = Inr (g1, dues, c1)"
    and p: "purge_inactive_users api g1 dues = Inr (g', c2)"
    and c: "calls = c1 @ c2"
    by (auto simp: run_user_purger_def split: sum.splits prod.splits)
  note a = update_user_activity_result [OF u]
  note b = purge_inactive_users_result [OF p]
  show "last_update g' = (if last_update g < t - USER_PURGING_THRESHOLD then t else last_update g)"
    using a(1) b by simp
  show "\<not> (\<exists>c \<in> set calls. is_membership_call c)" if "\<not> last_update g < t - USER_PURGING_THRESHOLD"
    using a(2) [OF that] b c by auto
qed

lemma update_networks_due_keys:
  "update_networks env api f t nets = Inr (nets', dues, calls) \<Longrightarrow>
     fst ` set dues \<subseteq> fst ` set nets"
proof (induction nets arbitrary: nets' dues calls)
  case Nil
  then show ?case by simp
next
  case (Cons a nets)
  obtain nk ua where a: "a = (nk, ua)" by (cases a)
  from Cons.prems a obtain ua' entry c1 n2 d2 c2 where
    r: "update_networks env api f t nets = Inr (n2, d2, c2)"
    and d: "dues = (case entry of None \<Rightarrow> d2 | Some due \<Rightarrow> (nk, due) # d2)"
    by (auto split: sum.splits prod.splits)
  from Cons.IH [OF r] d a show ?case
    by (auto split: option.splits)
qed

lemma network_step_skip:
  "network_step env api True t nk ua = Inr (ua', entry, calls) \<Longrightarrow>
     py_int env nk = Some n \<Longrightarrow> fst (get_discovery_room env api n) = None \<Longrightarrow>
     ua' = ua \<and> entry = None"
  by (auto simp: network_step_def split: prod.splits option.splits)

lemma update_networks_skip:
  "update_networks env api True t nets = Inr (nets', dues, calls) \<Longrightarrow>
     distinct (map fst nets) \<Longrightarrow> map_of nets nk = Some ua \<Longrightarrow>
     py_int env nk = Some n \<Longrightarrow> fst (get_discovery_room env api n) = None \<Longrightarrow>
     map_of nets' nk = Some ua \<and> map_of dues nk = None"
proof (induction nets arbitrary: nets' dues calls)
  case Nil
  then show ?case by simp
next
  case (Cons a nets)
  obtain hk hua where a: "a = (hk, hua)" by (cases a)
  from Cons.prems(1) a obtain ua' entry c1 n2 d2 c2 where
    s: "network_step env api True t hk hua = Inr (ua', entry, c1)"
    and r: "update_networks env api True t nets = Inr (n2, d2, c2)"
    and n: "nets' = (hk, ua') # n2"
    and d: "dues = (case entry of None \<Rightarrow> d2 | Some due \<Rightarrow> (hk, due) # d2)"
    by (auto split: sum.splits prod.splits)
  show ?case
  proof (cases "hk = nk")
    case True
    with Cons.prems(3) a have "hua = ua" by simp
    with network_step_skip [OF s] True Cons.prems(4,5) have e: "ua' = ua" "entry = None"
      by auto
    from Cons.prems(2) a True have "nk \<notin> fst ` set nets" by auto
    with update_networks_due_keys [OF r] have "nk \<notin> fst ` set d2" by auto
    then have "map_of d2 nk = None"
      by (simp add: map_of_eq_None_iff)
    with n d e True show ?thesis by simp
  next
    case False
    with Cons.prems a have "distinct (map fst nets)" "map_of nets nk = Some ua"
      by auto
    from Cons.IH [OF r this Cons.prems(4,5)] n d False show ?thesis
      by (auto split: option.splits)
  qed
qed

lemma purge_inactive_users_other_networks:
  "purge_inactive_users api g dues = Inr (g', calls) \<Longrightarrow> nk \<notin> fst ` set dues \<Longrightarrow>
     map_of (network_to_users g') nk = map_of (network_to_users g) nk"
proof (induction dues arbitrary: g g' calls)
  case Nil
  then show ?case by simp
next
  case (Cons a dues)
  obtain hk due where a: "a = (hk, due)" by (cases a)
  from Cons.prems(1) a obtain ua' c2 where
    r: "purge_inactive_users api
              (g\<lparr>network_to_users := AList.update hk ua' (network_to_users g)\<rparr>) dues = Inr (g', c2)"
    by (auto split: option.splits sum.splits prod.splits)
  from Cons.prems(2) a have "nk \<noteq> hk" "nk \<notin> fst ` set dues" by auto
  with Cons.IH [OF r] show ?case
    by (simp add: update_conv')
qed

lemma example_refresh_pass:
  "run_user_purger example_env example_api example_ledger 1000000 =
     Inr (example_ledger\<lparr>last_update := 1000000\<rparr>, [GetRoomId ''#raiden_mainnet_discovery:s''])"
  by code_simp

lemma example_second_pass:
  "run_user_purger example_env example_api (example_ledger\<lparr>last_update := 1000000\<rparr>) 1100000 =
     Inr (\<lparr>last_update = 1000000,
           network_to_users =
             [(''1'', [(''@b:s'', 999999), (''@c:s'', 1099995), (''@d:s'', 8)])]\<rparr>,
          [GetPresence ''@a:s'', GetPresence ''@c:s'', GetPresence ''@d:s'', GetPresence ''@e:s'',
           Deactivate ''@a:s'', Deactivate ''@e:s''])"
  by code_simp

lemma example_lookup_fails:
  "get_discovery_room example_env example_api 1 = (None, [GetRoomId ''#raiden_mainnet_discovery:s''])"
  by code_simp

lemma example_ledger_facts:
  "last_update example_ledger < 1000000 - USER_PURGING_THRESHOLD"
  "distinct (map fst (network_to_users example_ledger))"
  "map_of (network_to_users example_ledger) ''1'' = Some example_segment"
  "py_int example_env ''1'' = Some 1"
  by (simp_all add: example_ledger_def example_env_def USER_PURGING_THRESHOLD_def)

text \<open>
  Claim C1 as stated fails. The ledger has one network whose discovery room the server
  does not know, and the refresh is due. Probing the segment would find \<open>@a:s\<close> and
  \<open>@e:s\<close> due, yet the pass makes the room lookup only: no presence request, no
  deactivation, and both accounts are still in the ledger.
\<close>

theorem missing_room_blocks_probe_counterexample:
  "last_update example_ledger < 1000000 - USER_PURGING_THRESHOLD
   \<and> map_of (network_to_users example_ledger) ''1'' = Some example_segment
   \<and> py_int example_env ''1'' = Some 1
   \<and> get_discovery_room example_env example_api 1 =
       (None, [GetRoomId ''#raiden_mainnet_discovery:s''])
   \<and> update_user_activity_for_network example_api example_segment 1000000 =
       (example_segment_probed, [''@a:s'', ''@e:s''],
        [GetPresence ''@a:s'', GetPresence ''@c:s'', GetPresence ''@d:s'',
         GetPresence ''@e:s''])
   \<and> run_user_purger example_env example_api example_ledger 1000000 =
       Inr (example_ledger\<lparr>last_update := 1000000\<rparr>,
            [GetRoomId ''#raiden_mainnet_discovery:s''])"
  using example_ledger_facts example_lookup_fails example_probe example_refresh_pass
  by simp

text \<open>
  Claim C6. A pass refreshes the membership exactly when
  \<open>last_update < now - USER_PURGING_THRESHOLD\<close> and then sets \<open>last_update\<close> to \<open>now\<close>.
  So of two passes, the second on the ledger the first returned and at most
  \<open>USER_PURGING_THRESHOLD\<close> later, at most one has the refresh condition and at most one
  makes a room lookup or a member fetch.
\<close>

theorem refresh_at_most_once_per_window:
  assumes "run_user_purger env1 api1 g t1 = Inr (g1, calls1)"
    and "run_user_purger env2 api2 g1 t2 = Inr (g2, calls2)"
    and "t2 \<le> t1 + USER_PURGING_THRESHOLD"
  shows "last_update g1 = (if last_update g < t1 - USER_PURGING_THRESHOLD then t1 else last_update g)
       \<and> \<not> (last_update g < t1 - USER_PURGING_THRESHOLD
            \<and> last_update g1 < t2 - USER_PURGING_THRESHOLD)
       \<and> \<not> ((\<exists>c \<in> set calls1. is_membership_call c) \<and> (\<exists>c \<in> set calls2. is_membership_call c))"
proof -
  note a = run_user_purger_result [OF assms(1)]
  note b = run_user_purger_result [OF assms(2)]
  have one: "\<not> (last_update g < t1 - USER_PURGING_THRESHOLD
            \<and> last_update g1 < t2 - USER_PURGING_THRESHOLD)"
    using a(1) assms(3) by auto
  have "\<not> ((\<exists>c \<in> set calls1. is_membership_call c) \<and> (\<exists>c \<in> set calls2. is_membership_call c))"
    using one a(2) b(2) by blast
  with a(1) one show ?thesis by blast
qed

theorem refresh_at_most_once_per_window_witness:
  "run_user_purger example_env example_api example_ledger 1000000 =
     Inr (example_ledger\<lparr>last_update := 1000000\<rparr>, [GetRoomId ''#raiden_mainnet_discovery:s''])
   \<and> run_user_purger example_env example_api (example_ledger\<lparr>last_update := 1000000\<rparr>) 1100000 =
     Inr (\<lparr>last_update = 1000000,
           network_to_users =
             [(''1'', [(''@b:s'', 999999), (''@c:s'', 1099995), (''@d:s'', 8)])]\<rparr>,
          [GetPresence ''@a:s'', GetPresence ''@c:s'', GetPresence ''@d:s'', GetPresence ''@e:s'',
           Deactivate ''@a:s'', Deactivate ''@e:s''])
   \<and> (1100000::int) \<le> 1000000 + USER_PURGING_THRESHOLD
   \<and> \<not> (last_update example_ledger < 1000000 - USER_PURGING_THRESHOLD
        \<and> last_update (example_ledger\<lparr>last_update := 1000000\<rparr>) < 1100000 - USER_PURGING_THRESHOLD)"
proof -
  have w: "(1100000::int) \<le> 1000000 + USER_PURGING_THRESHOLD"
    by (simp add: USER_PURGING_THRESHOLD_def)
  from refresh_at_most_once_per_window [OF example_refresh_pass example_second_pass w]
    example_refresh_pass example_second_pass w
  show ?thesis by blast
qed

text \<open>
  Claim C10. When the refresh is due, the ledger a pass returns has \<open>last_update = now\<close>,
  whatever the server answers to the room lookups and member fetches; and no pass on
  that ledger at a time up to \<open>now + USER_PURGING_THRESHOLD\<close> makes a room lookup or a
  member fetch, or changes \<open>last_update\<close>.
\<close>

theorem failed_refresh_advances_last_update:
  assumes "last_update g < t - USER_PURGING_THRESHOLD"
    and "run_user_purger env api g t = Inr (g', calls)"
  shows "last_update g' = t
       \<and> (\<forall>env2 api2 t2 g2 calls2.
             t2 \<le> t + USER_PURGING_THRESHOLD
             \<and> run_user_purger env2 api2 g' t2 = Inr (g2, calls2)
             \<longrightarrow> \<not> (\<exists>c \<in> set calls2. is_membership_call c) \<and> last_update g2 = t)"
proof -
  have a: "last_update g' = t"
    using run_user_purger_result(1) [OF assms(2)] assms(1) by simp
  have b: "\<not> (\<exists>c \<in> set calls2. is_membership_call c) \<and> last_update g2 = t"
    if "t2 \<le> t + USER_PURGING_THRESHOLD" "run_user_purger env2 api2 g' t2 = Inr (g2, calls2)"
    for env2 api2 t2 g2 calls2
  proof -
    have n: "\<not> last_update g' < t2 - USER_PURGING_THRESHOLD"
      using a that(1) by simp
    from run_user_purger_result [OF that(2)] n a show ?thesis by simp
  qed
  from a b show ?thesis by blast
qed

theorem failed_refresh_advances_last_update_witness:
  "last_update example_ledger < 1000000 - USER_PURGING_THRESHOLD
   \<and> run_user_purger example_env example_api example_ledger 1000000 =
       Inr (example_ledger\<lparr>last_update := 1000000\<rparr>, [GetRoomId ''#raiden_mainnet_discovery:s''])
   \<and> last_update (example_ledger\<lparr>last_update := 1000000\<rparr>) = 1000000"
proof -
  from failed_refresh_advances_last_update [OF example_ledger_facts(1) example_refresh_pass]
    example_ledger_facts(1) example_refresh_pass
  show ?thesis by blast
qed

section \<open>Properties of the purge\<close>

lemma purge_for_network_lookup:
  "purge_inactive_users_for_network api ua due = Inr (ua', calls) \<Longrightarrow>
     map_of ua' u = (if u \<in> set due \<and> deactivate api u then None else map_of ua u)"
proof (induction due arbitrary: ua ua' calls)
  case Nil
  then show ?case by simp
next
  case (Cons v due)
  let ?ua1 = "if deactivate api v then AList.delete v ua else ua"
  from Cons.prems obtain c where
    r: "purge_inactive_users_for_network api ?ua1 due = Inr (ua', c)"
    by (auto split: option.splits sum.splits)
  from Cons.IH [OF r] show ?case
    by (auto simp: delete_conv')
qed

lemma purge_success_removes:
  "purge_inactive_users_for_network api ua due = Inr (ua', calls) \<Longrightarrow>
     u \<in> set due \<Longrightarrow> deactivate api u \<Longrightarrow> map_of ua' u = None"
  by (simp add: purge_for_network_lookup)

lemma purge_failure_keeps:
  "purge_inactive_users_for_network api ua due = Inr (ua', calls) \<Longrightarrow>
     \<not> deactivate api u \<Longrightarrow> map_of ua' u = map_of ua u \<and> calls = map Deactivate due"
  by (simp add: purge_for_network_lookup purge_for_network_calls)

lemma second_purge_pass_raises:
  "purge_inactive_users_for_network api ua due = Inr (ua', calls) \<Longrightarrow>
     \<exists>u \<in> set due. deactivate api u \<Longrightarrow>
     purge_inactive_users_for_network api ua' due = Inl KeyError"
proof (induction due arbitrary: ua ua' calls)
  case Nil
  then show ?case by simp
next
  case (Cons v due)
  let ?ua1 = "if deactivate api v then AList.delete v ua else ua"
  from Cons.prems(1) obtain ls c where
    ls: "map_of ua v = Some ls"
    and r: "purge_inactive_users_for_network api ?ua1 due = Inr (ua', c)"
    by (auto split: option.splits sum.splits)
  note l = purge_for_network_lookup [OF Cons.prems(1)]
  show ?case
  proof (cases "deactivate api v")
    case True
    with l [of v] have "map_of ua' v = None" by simp
    then show ?thesis by simp
  next
    case False
    with Cons.prems(2) have ex: "\<exists>u \<in> set due. deactivate api u" by auto
    from False l [of v] ls have v: "map_of ua' v = Some ls" by simp
    from False r have r': "purge_inactive_users_for_network api ua due = Inr (ua', c)" by simp
    have "purge_inactive_users_for_network api ua' due = Inl KeyError"
      by (rule Cons.IH [OF r' ex])
    with v False show ?thesis by simp
  qed
qed

section \<open>A pass on a well-formed ledger returns\<close>

lemma second_piece_error: "second_piece m = Inl e \<Longrightarrow> e = IndexError"
  by (auto simp: second_piece_def split: list.splits)

lemma room_members_of_total:
  "\<forall>m \<in> set ms. second_piece m \<noteq> Inl IndexError \<Longrightarrow> \<exists>r. room_members_of server ms = Inr r"
proof (induction ms)
  case Nil
  then show ?case by simp
next
  case (Cons m ms)
  then obtain r where r: "room_members_of server ms = Inr r" by auto
  from Cons.prems obtain p where "second_piece m = Inr p"
    by (cases "second_piece m") (auto dest: second_piece_error)
  with r show ?case by simp
qed

lemma fetch_new_members_total:
  assumes "\<forall>rid ms. room_members api rid = Some ms \<longrightarrow>
             (\<forall>m \<in> set ms. second_piece m \<noteq> Inl IndexError)"
  shows "\<exists>ua1 c. fetch_new_members_for_network api ua room t = Inr (ua1, c)
           \<and> (distinct (map fst ua) \<longrightarrow> distinct (map fst ua1))"
proof (cases "room_members api (room_id room)")
  case None
  then show ?thesis by (simp add: fetch_new_members_for_network_def)
next
  case (Some ms)
  with assms have "\<forall>m \<in> set ms. second_piece m \<noteq> Inl IndexError" by blast
  from room_members_of_total [OF this] obtain r where "room_members_of (netloc api) ms = Inr r"
    by blast
  with Some show ?thesis
    by (simp add: fetch_new_members_for_network_def add_new_members_distinct)
qed

lemma probe_due_well_formed:
  assumes "update_user_activity_for_network api ua t = (ua', due, calls)"
    and "distinct (map fst ua)"
  shows "distinct (map fst ua') \<and> distinct due \<and> set due \<subseteq> fst ` set ua'"
proof -
  note p = probe_result [OF assms(1)]
  have k: "fst ` set ua' = fst ` set ua"
    using p(4) by (metis list.set_map)
  have "set due \<subseteq> fst ` set ua'"
    using p(2) k possible_candidates_keys [of ua "t - USER_PURGING_THRESHOLD"] by auto
  moreover have "distinct due"
    using p(2) possible_candidates_distinct [OF assms(2)] by simp
  ultimately show ?thesis
    using p(4) assms(2) by simp
qed

lemma network_step_total:
  assumes "\<forall>rid ms. room_members api rid = Some ms \<longrightarrow>
             (\<forall>m \<in> set ms. second_piece m \<noteq> Inl IndexError)"
    and "f \<longrightarrow> py_int env nk \<noteq> None"
    and "distinct (map fst ua)"
  shows "\<exists>ua' entry c. network_step env api f t nk ua = Inr (ua', entry, c)
           \<and> distinct (map fst ua')
           \<and> (\<forall>due. entry = Some due \<longrightarrow> distinct due \<and> set due \<subseteq> fst ` set ua')"
proof (cases f)
  case False
  obtain ua2 due c2 where p: "update_user_activity_for_network api ua t = (ua2, due, c2)"
    by (cases "update_user_activity_for_network api ua t") auto
  from probe_due_well_formed [OF p assms(3)] p False show ?thesis
    by (simp add: network_step_def)
next
  case True
  with assms(2) obtain n where n: "py_int env nk = Some n" by auto
  obtain room c where d: "get_discovery_room env api n = (room, c)"
    by (cases "get_discovery_room env api n") auto
  show ?thesis
  proof (cases room)
    case None
    with True n d assms(3) show ?thesis
      by (simp add: network_step_def)
  next
    case (Some r)
    from fetch_new_members_total [OF assms(1), of ua r t] assms(3) obtain ua1 c1 where
      m: "fetch_new_members_for_network api ua r t = Inr (ua1, c1)" "distinct (map fst ua1)"
      by blast
    obtain ua2 due c2 where p: "update_user_activity_for_network api ua1 t = (ua2, due, c2)"
      by (cases "update_user_activity_for_network api ua1 t") auto
    from probe_due_well_formed [OF p m(2)] p m(1) Some True n d show ?thesis
      by (simp add: network_step_def)
  qed
qed

lemma update_networks_total:
  assumes "\<forall>rid ms. room_members api rid = Some ms \<longrightarrow>
             (\<forall>m \<in> set ms. second_piece m \<noteq> Inl IndexError)"
  shows "f \<longrightarrow> (\<forall>nk \<in> fst ` set nets. py_int env nk \<noteq> None) \<Longrightarrow>
         distinct (map fst nets) \<Longrightarrow> \<forall>(nk, ua) \<in> set nets. distinct (map fst ua) \<Longrightarrow>
         \<exists>nets' dues c. update_networks env api f t nets = Inr (nets', dues, c)
           \<and> distinct (map fst dues)
           \<and> (\<forall>(nk, due) \<in> set dues. \<exists>ua'. map_of nets' nk = Some ua' \<and> distinct due
                  \<and> set due \<subseteq> fst ` set ua')"
proof (induction nets)
  case Nil
  then show ?case by simp
next
  case (Cons a nets)
  obtain hk hua where a: "a = (hk, hua)" by (cases a)
  from Cons.prems a have h: "f \<longrightarrow> py_int env hk \<noteq> None" "distinct (map fst hua)"
    and rest: "f \<longrightarrow> (\<forall>nk \<in> fst ` set nets. py_int env nk \<noteq> None)" "distinct (map fst nets)"
      "\<forall>(nk, ua) \<in> set nets. distinct (map fst ua)"
    and fresh: "hk \<notin> fst ` set nets"
    by auto
  from network_step_total [OF assms h, of t] obtain ua' entry c1 where
    s: "network_step env api f t hk hua = Inr (ua', entry, c1)"
    and e: "\<forall>due. entry = Some due \<longrightarrow> distinct due \<and> set due \<subseteq> fst ` set ua'"
    by blast
  from Cons.IH [OF rest] obtain n2 d2 c2 where
    r: "update_networks env api f t nets = Inr (n2, d2, c2)"
    and dd: "distinct (map fst d2)"
    and dw: "\<forall>(nk, due) \<in> set d2. \<exists>ua'. map_of n2 nk = Some ua' \<and> distinct due
                  \<and> set due \<subseteq> fst ` set ua'"
    by blast
  from update_networks_due_keys [OF r] fresh have nd: "hk \<notin> fst ` set d2" by auto
  let ?dues = "case entry of None \<Rightarrow> d2 | Some due \<Rightarrow> (hk, due) # d2"
  have res: "update_networks env api f t (a # nets) = Inr ((hk, ua') # n2, ?dues, c1 @ c2)"
    using a s r by simp
  have d1: "distinct (map fst ?dues)"
    using dd nd by (auto split: option.splits)
  have d3: "\<exists>ua''. map_of ((hk, ua') # n2) nk = Some ua'' \<and> distinct due
                  \<and> set due \<subseteq> fst ` set ua''"
    if "(nk, due) \<in> set ?dues" for nk due
  proof (cases "nk = hk")
    case True
    with that nd have "entry = Some due"
      by (auto split: option.splits simp: image_iff)
    with e True show ?thesis by simp
  next
    case False
    with that have "(nk, due) \<in> set d2"
      by (auto split: option.splits)
    with dw False show ?thesis by auto
  qed
  from res d1 d3 show ?case by blast
qed

lemma purge_for_network_total:
  "distinct due \<Longrightarrow> set due \<subseteq> fst ` set ua \<Longrightarrow>
     \<exists>ua' c. purge_inactive_users_for_network api ua due = Inr (ua', c)"
proof (induction due arbitrary: ua)
  case Nil
  then show ?case by simp
next
  case (Cons u due)
  let ?ua1 = "if deactivate api u then AList.delete u ua else ua"
  from Cons.prems have "u \<in> fst ` set ua" by simp
  then obtain ls where ls: "map_of ua u = Some ls"
    by (cases "map_of ua u") (auto simp: map_of_eq_None_iff)
  have "fst ` set (AList.delete u ua) = fst ` set ua - {u}"
    by (metis delete_keys list.set_map set_removeAll)
  then have "set due \<subseteq> fst ` set ?ua1"
    using Cons.prems by auto
  with Cons.IH [of ?ua1] Cons.prems(1) obtain ua' c where
    "purge_inactive_users_for_network api ?ua1 due = Inr (ua', c)"
    by auto
  with ls show ?case by simp
qed

lemma purge_inactive_users_total:
  "distinct (map fst dues) \<Longrightarrow>
   \<forall>(nk, due) \<in> set dues. \<exists>ua. map_of (network_to_users g) nk = Some ua \<and> distinct due
        \<and> set due \<subseteq> fst ` set ua \<Longrightarrow>
   \<exists>g' c. purge_inactive_users api g dues = Inr (g', c)"
proof (induction dues arbitrary: g)
  case Nil
  then show ?case by simp
next
  case (Cons a dues)
  obtain nk due where a: "a = (nk, due)" by (cases a)
  from Cons.prems(2) a obtain ua where ua: "map_of (network_to_users g) nk = Some ua"
      "distinct due" "set due \<subseteq> fst ` set ua"
    by auto
  from purge_for_network_total [OF ua(2,3)] obtain ua' c1 where
    p: "purge_inactive_users_for_network api ua due = Inr (ua', c1)"
    by blast
  let ?g1 = "g\<lparr>network_to_users := AList.update nk ua' (network_to_users g)\<rparr>"
  from Cons.prems(1) a have fresh: "nk \<notin> fst ` set dues" and dd: "distinct (map fst dues)"
    by auto
  have inv: "\<forall>(k, d) \<in> set dues. \<exists>ua. map_of (network_to_users ?g1) k = Some ua \<and> distinct d
        \<and> set d \<subseteq> fst ` set ua"
  proof clarify
    fix k d
    assume kd: "(k, d) \<in> set dues"
    with fresh have "k \<noteq> nk" by (auto simp: image_iff)
    moreover from kd Cons.prems(2) have
      "\<exists>ua. map_of (network_to_users g) k = Some ua \<and> distinct d \<and> set d \<subseteq> fst ` set ua"
      by auto
    ultimately show "\<exists>ua. map_of (network_to_users ?g1) k = Some ua \<and> distinct d
        \<and> set d \<subseteq> fst ` set ua"
      by (simp add: update_conv')
  qed
  from Cons.IH [OF dd inv] obtain g' c2 where
    "purge_inactive_users api ?g1 dues = Inr (g', c2)"
    by blast
  with a ua(1) p show ?case by simp
qed

lemma run_user_purger_total:
  assumes "\<forall>rid ms. room_members api rid = Some ms \<longrightarrow>
             (\<forall>m \<in> set ms. second_piece m \<noteq> Inl IndexError)"
    and "last_update g < t - USER_PURGING_THRESHOLD \<longrightarrow>
           (\<forall>nk \<in> fst ` set (network_to_users g). py_int env nk \<noteq> None)"
    and "distinct (map fst (network_to_users g))"
    and "\<forall>(nk, ua) \<in> set (network_to_users g). distinct (map fst ua)"
  shows "\<exists>g' calls. run_user_purger env api g t = Inr (g', calls)"
proof -
  let ?f = "last_update g < t - USER_PURGING_THRESHOLD"
  from update_networks_total [OF assms(1), of ?f "network_to_users g" env t] assms(2,3,4)
  obtain nets' dues c where
    u: "update_networks env api ?f t (network_to_users g) = Inr (nets', dues, c)"
    and dd: "distinct (map fst dues)"
    and dw: "\<forall>(nk, due) \<in> set dues. \<exists>ua'. map_of nets' nk = Some ua' \<and> distinct due
                  \<and> set due \<subseteq> fst ` set ua'"
    by blast
  let ?g0 = "if ?f then g\<lparr>last_update := t\<rparr> else g"
  let ?g1 = "?g0\<lparr>network_to_users := nets'\<rparr>"
  have uu: "update_user_activity env api g t = Inr (?g1, dues, c)"
    using u by (cases ?f) (simp_all add: update_user_activity_def Let_def)
  have "\<forall>(nk, due) \<in> set dues. \<exists>ua. map_of (network_to_users ?g1) nk = Some ua \<and> distinct due
        \<and> set due \<subseteq> fst ` set ua"
    using dw by simp
  from purge_inactive_users_total [OF dd this] obtain g' c2 where
    "purge_inactive_users api ?g1 dues = Inr (g', c2)"
    by blast
  with uu show ?thesis
    by (simp add: run_user_purger_def)
qed

section \<open>Properties of the loading\<close>

lemma update_new_key:
  "k \<notin> fst ` set al \<Longrightarrow> AList.update k v al = al @ [(k, v)]"
  by (induction al) auto

lemma add_networks_result:
  "\<exists>nets'. add_networks env ns \<lparr>doc_last_update = l, doc_network_to_users = Some nets\<rparr>
              = Inr \<lparr>doc_last_update = l, doc_network_to_users = Some nets'\<rparr>
         \<and> set nets' = set nets \<union> {(py_str env n, []) | n. n \<in> set ns \<and> py_str env n \<notin> fst ` set nets}
         \<and> (distinct (map fst nets) \<longrightarrow> distinct (map fst nets'))"
proof (induction ns arbitrary: nets)
  case Nil
  then show ?case by simp
next
  case (Cons n ns)
  show ?case
  proof (cases "map_of nets (py_str env n) = None")
    case False
    then have k: "py_str env n \<in> fst ` set nets"
      by (simp add: map_of_eq_None_iff)
    from Cons.IH [of nets] obtain nets' where
      "add_networks env ns \<lparr>doc_last_update = l, doc_network_to_users = Some nets\<rparr>
         = Inr \<lparr>doc_last_update = l, doc_network_to_users = Some nets'\<rparr>"
      "set nets' = set nets \<union> {(py_str env n, []) | n. n \<in> set ns \<and> py_str env n \<notin> fst ` set nets}"
      "distinct (map fst nets) \<longrightarrow> distinct (map fst nets')"
      by blast
    with False k show ?thesis by auto
  next
    case True
    then have k: "py_str env n \<notin> fst ` set nets"
      by (simp add: map_of_eq_None_iff)
    let ?nets1 = "nets @ [(py_str env n, [])]"
    have u: "AList.update (py_str env n) [] nets = ?nets1"
      by (rule update_new_key [OF k])
    from Cons.IH [of ?nets1] obtain nets' where
      a: "add_networks env ns \<lparr>doc_last_update = l, doc_network_to_users = Some ?nets1\<rparr>
         = Inr \<lparr>doc_last_update = l, doc_network_to_users = Some nets'\<rparr>"
      and b: "set nets' = set ?nets1 \<union> {(py_str env m, []) | m. m \<in> set ns \<and> py_str env m \<notin> fst ` set ?nets1}"
      and c: "distinct (map fst ?nets1) \<longrightarrow> distinct (map fst nets')"
      by blast
    have a': "add_networks env (n # ns) \<lparr>doc_last_update = l, doc_network_to_users = Some nets\<rparr>
         = Inr \<lparr>doc_last_update = l, doc_network_to_users = Some nets'\<rparr>"
      using True u a by simp
    have b': "set nets' = set nets \<union> {(py_str env m, []) | m. m \<in> set (n # ns) \<and> py_str env m \<notin> fst ` set nets}"
      using b k by auto
    have c': "distinct (map fst nets) \<longrightarrow> distinct (map fst nets')"
      using c k by auto
    from a' b' c' show ?thesis by blast
  qed
qed

text \<open>
  Claim C3, as the source has it. When the file is missing or is not valid JSON, loading
  falls back to the empty ledger: no networks, and \<open>last_update\<close> one second before the
  threshold, so that the refresh is due unless the clock has gone back. The networks of
  \<open>Networks\<close> are then added with empty segments and the run is the pass on that ledger;
  it returns a ledger whenever \<open>int(str(n))\<close> is defined for these networks and every
  member the server lists has a colon.
\<close>

theorem load_falls_back_on_missing_or_invalid_json:
  assumes "file = NotFound \<or> file = NotJSON"
  shows "load_user_activity file start_time = Inr (empty_document start_time)
       \<and> doc_network_to_users (empty_document start_time) = Some []
       \<and> doc_last_update (empty_document start_time) = Some (start_time - USER_PURGING_THRESHOLD - 1)
       \<and> (start_time \<le> current_time \<longrightarrow>
            start_time - USER_PURGING_THRESHOLD - 1 < current_time - USER_PURGING_THRESHOLD)
       \<and> (\<exists>nets. set nets = (\<lambda>n. (py_str env n, [])) ` set (Networks env)
              \<and> distinct (map fst nets)
              \<and> purge env api file start_time current_time =
                  run_user_purger env api
                    \<lparr>last_update = start_time - USER_PURGING_THRESHOLD - 1,
                     network_to_users = nets\<rparr> current_time)
       \<and> ((\<forall>n \<in> set (Networks env). py_int env (py_str env n) \<noteq> None)
            \<and> (\<forall>rid ms. room_members api rid = Some ms \<longrightarrow>
                  (\<forall>m \<in> set ms. second_piece m \<noteq> Inl IndexError))
          \<longrightarrow> (\<exists>g' calls. purge env api file start_time current_time = Inr (g', calls)))"
proof -
  let ?l = "Some (start_time - USER_PURGING_THRESHOLD - 1)"
  have ld: "load_user_activity file start_time = Inr (empty_document start_time)"
    using assms by (auto simp: load_user_activity_def)
  have e: "empty_document start_time = \<lparr>doc_last_update = ?l, doc_network_to_users = Some []\<rparr>"
    by (simp add: empty_document_def)
  from add_networks_result [of env "Networks env" ?l "[]"] obtain nets where
    a: "add_networks env (Networks env) \<lparr>doc_last_update = ?l, doc_network_to_users = Some []\<rparr>
         = Inr \<lparr>doc_last_update = ?l, doc_network_to_users = Some nets\<rparr>"
    and b0: "set nets = {(py_str env n, []) | n. n \<in> set (Networks env)}"
    and c: "distinct (map fst nets)"
    by auto
  have b: "set nets = (\<lambda>n. (py_str env n, [])) ` set (Networks env)"
    using b0 by auto
  let ?g = "\<lparr>last_update = start_time - USER_PURGING_THRESHOLD - 1, network_to_users = nets\<rparr>"
  have p: "purge env api file start_time current_time = run_user_purger env api ?g current_time"
    using ld e a by (simp add: purge_def as_UserActivityInfo_def)
  have r: "\<exists>g' calls. purge env api file start_time current_time = Inr (g', calls)"
    if ok: "\<forall>n \<in> set (Networks env). py_int env (py_str env n) \<noteq> None"
      and ms: "\<forall>rid ms. room_members api rid = Some ms \<longrightarrow>
                  (\<forall>m \<in> set ms. second_piece m \<noteq> Inl IndexError)"
  proof -
    have k: "last_update ?g < current_time - USER_PURGING_THRESHOLD \<longrightarrow>
               (\<forall>nk \<in> fst ` set (network_to_users ?g). py_int env nk \<noteq> None)"
      using b ok by auto
    have d: "distinct (map fst (network_to_users ?g))"
      using c by simp
    have s: "\<forall>(nk, ua) \<in> set (network_to_users ?g). distinct (map fst ua)"
      using b by auto
    from run_user_purger_total [OF ms k d s] p show ?thesis by simp
  qed
  have t: "start_time \<le> current_time \<longrightarrow>
            start_time - USER_PURGING_THRESHOLD - 1 < current_time - USER_PURGING_THRESHOLD"
    by simp
  have q: "\<exists>nets. set nets = (\<lambda>n. (py_str env n, [])) ` set (Networks env)
              \<and> distinct (map fst nets)
              \<and> purge env api file start_time current_time =
                  run_user_purger env api
                    \<lparr>last_update = start_time - USER_PURGING_THRESHOLD - 1,
                     network_to_users = nets\<rparr> current_time"
    using b c p by blast
  from ld e t q r show ?thesis by simp
qed

text \<open>
  Claim C3 as stated fails for other invalid content. A file that holds the JSON
  document \<open>{}\<close> is loaded as it is, and the first read of
  \<open>global_user_activity["network_to_users"]\<close> raises \<open>KeyError\<close>; a file whose bytes are not
  text raises \<open>UnicodeDecodeError\<close>, which is neither of the two exceptions the source
  catches. Nothing is written back in either case.
\<close>

theorem load_crashes_on_other_invalid_content_counterexample:
  "purge example_env example_api (Document empty_object) 1000000 1000000 = Inl KeyError
   \<and> purge example_env example_api NotText 1000000 1000000 = Inl UnicodeDecodeError"
  by (simp add: purge_def load_user_activity_def example_env_def empty_object_def)

lemma example_empty_pass:
  "run_user_purger example_env example_api
     \<lparr>last_update = 1000000 - USER_PURGING_THRESHOLD - 1, network_to_users = [(''1'', [])]\<rparr> 1000000
   = Inr (\<lparr>last_update = 1000000, network_to_users = [(''1'', [])]\<rparr>,
          [GetRoomId ''#raiden_mainnet_discovery:s''])"
  by code_simp

theorem load_falls_back_on_missing_or_invalid_json_witness:
  "load_user_activity NotJSON 1000000 = Inr (empty_document 1000000)
   \<and> doc_network_to_users (empty_document 1000000) = Some []
   \<and> purge example_env example_api NotJSON 1000000 1000000 =
       Inr (\<lparr>last_update = 1000000, network_to_users = [(''1'', [])]\<rparr>,
            [GetRoomId ''#raiden_mainnet_discovery:s''])"
proof -
  from load_falls_back_on_missing_or_invalid_json
      [of NotJSON 1000000 1000000 example_env example_api]
  obtain nets where
    n: "set nets = (\<lambda>n. (py_str example_env n, [])) ` set (Networks example_env)"
       "distinct (map fst nets)"
    and p: "purge example_env example_api NotJSON 1000000 1000000 =
       run_user_purger example_env example_api
         \<lparr>last_update = 1000000 - USER_PURGING_THRESHOLD - 1, network_to_users = nets\<rparr> 1000000"
    and l: "load_user_activity NotJSON 1000000 = Inr (empty_document 1000000)"
       "doc_network_to_users (empty_document 1000000) = Some []"
    by auto
  from n(1) have "set nets = {(''1'', [])}"
    by (simp add: example_env_def)
  with n(2) have "nets = [(''1'', [])]"
    by (cases nets) (auto simp: distinct_length_2_or_more dest!: subset_singletonD)
  with p l example_empty_pass show ?thesis by simp
qed

section \<open>What a pass deactivates\<close>

lemma split_on_no_sep: "p \<in> set (split_on sep s) \<Longrightarrow> sep \<notin> set p"
  by (induction s arbitrary: p) (auto split: if_splits list.splits)

lemma second_piece_no_colon: "second_piece m = Inr d \<Longrightarrow> CHR '':'' \<notin> set d"
proof -
  assume a: "second_piece m = Inr d"
  then have "d \<in> set (split_on CHR '':'' m)"
    by (auto simp: second_piece_def split: list.splits)
  then show ?thesis by (rule split_on_no_sep)
qed




lemma purge_inactive_users_calls:
  "purge_inactive_users api g dues = Inr (g', calls) \<Longrightarrow> Deactivate u \<in> set calls \<Longrightarrow>
     \<exists>nk due. (nk, due) \<in> set dues \<and> u \<in> set due"
proof (induction dues arbitrary: g g' calls)
  case Nil
  then show ?case by simp
next
  case (Cons a dues)
  obtain nk due where a: "a = (nk, due)" by (cases a)
  from Cons.prems(1) a obtain ua ua' c1 c2 where
    p: "purge_inactive_users_for_network api ua due = Inr (ua', c1)"
    and r: "purge_inactive_users api
              (g\<lparr>network_to_users := AList.update nk ua' (network_to_users g)\<rparr>) dues = Inr (g', c2)"
    and c: "calls = c1 @ c2"
    by (auto split: option.splits sum.splits prod.splits)
  from Cons.prems(2) c have "Deactivate u \<in> set c1 \<or> Deactivate u \<in> set c2" by simp
  then show ?case
  proof
    assume "Deactivate u \<in> set c1"
    with purge_for_network_calls [OF p] have "u \<in> set due" by auto
    with a show ?thesis by auto
  next
    assume "Deactivate u \<in> set c2"
    from Cons.IH [OF r this] show ?thesis by auto
  qed
qed


section \<open>A network whose discovery room is not found\<close>

lemma update_networks_append:
  "update_networks env api f t (xs @ ys) =
     (case update_networks env api f t xs of
        Inl e \<Rightarrow> Inl e
      | Inr (n1, d1, p1) \<Rightarrow>
          (case update_networks env api f t ys of
             Inl e \<Rightarrow> Inl e
           | Inr (n2, d2, p2) \<Rightarrow> Inr (n1 @ n2, d1 @ d2, p1 @ p2)))"
  by (induction xs) (auto split: sum.splits prod.splits option.splits)

lemma network_step_skipped:
  assumes "py_int env nk = Some n" and "fst (get_discovery_room env api n) = None"
  shows "network_step env api True t nk ua =
           Inr (ua, None, [GetRoomId (''#'' @ make_room_alias env n @ '':'' @ netloc api)])"
proof -
  have "get_discovery_room env api n =
          (None, [GetRoomId (''#'' @ make_room_alias env n @ '':'' @ netloc api)])"
    using assms(2) by (auto simp: get_discovery_room_def Let_def split: option.splits)
  with assms(1) show ?thesis
    by (simp add: network_step_def)
qed

lemma update_networks_around_skipped:
  assumes "update_networks env api True t (before @ (nk, ua) # after) = Inr (nets', dues, c1)"
    and "py_int env nk = Some n" and "fst (get_discovery_room env api n) = None"
  shows "\<exists>n1 d1 p1 n2 d2 p2.
           update_networks env api True t before = Inr (n1, d1, p1)
         \<and> update_networks env api True t after = Inr (n2, d2, p2)
         \<and> c1 = p1 @ [GetRoomId (''#'' @ make_room_alias env n @ '':'' @ netloc api)] @ p2"
  using assms(1) network_step_skipped [OF assms(2,3), of t ua]
  by (auto simp: update_networks_append split: sum.splits prod.splits)

text \<open>
  Claim C1, as the source has it. In a pass that refreshes the membership, a network
  whose discovery room is not found is skipped for the rest of the pass. The body of the
  loop makes the room lookup for it and nothing else, leaves its segment as it is and
  adds no entry to the due lists; so, in the requests of the pass over the networks, the
  room lookup is all that stands between the requests for the networks before it and
  those for the networks after it. The purge then sends deactivations for the due lists
  of other networks only, and the segment comes out of the pass as it went in.
\<close>

theorem missing_room_skips_network:
  assumes "last_update g < t - USER_PURGING_THRESHOLD"
    and "distinct (map fst (network_to_users g))"
    and "map_of (network_to_users g) nk = Some ua"
    and "py_int env nk = Some n"
    and "fst (get_discovery_room env api n) = None"
    and "run_user_purger env api g t = Inr (g', calls)"
  shows "network_step env api True t nk ua =
           Inr (ua, None, [GetRoomId (''#'' @ make_room_alias env n @ '':'' @ netloc api)])
       \<and> (\<exists>g1 dues c1 c2.
              update_user_activity env api g t = Inr (g1, dues, c1)
            \<and> map_of dues nk = None
            \<and> map_of (network_to_users g1) nk = Some ua
            \<and> (\<forall>before after. network_to_users g = before @ (nk, ua) # after \<longrightarrow>
                  (\<exists>n1 d1 p1 n2 d2 p2.
                       update_networks env api True t before = Inr (n1, d1, p1)
                     \<and> update_networks env api True t after = Inr (n2, d2, p2)
                     \<and> c1 = p1 @ [GetRoomId (''#'' @ make_room_alias env n @ '':'' @ netloc api)]
                               @ p2))
            \<and> calls = c1 @ c2
            \<and> (\<forall>u. Deactivate u \<in> set c2 \<longrightarrow>
                  (\<exists>k due. (k, due) \<in> set dues \<and> k \<noteq> nk \<and> u \<in> set due)))
       \<and> map_of (network_to_users g') nk = Some ua"
proof -
  let ?lookup = "GetRoomId (''#'' @ make_room_alias env n @ '':'' @ netloc api)"
  have step: "network_step env api True t nk ua = Inr (ua, None, [?lookup])"
    by (rule network_step_skipped [OF assms(4,5)])
  from assms(6) obtain g1 dues c1 c2 where
    u: "update_user_activity env api g t = Inr (g1, dues, c1)"
    and p: "purge_inactive_users api g1 dues = Inr (g', c2)"
    and c: "calls = c1 @ c2"
    by (auto simp: run_user_purger_def split: sum.splits prod.splits)
  from u assms(1) obtain nets' where
    n: "update_networks env api True t (network_to_users g) = Inr (nets', dues, c1)"
    and g1: "network_to_users g1 = nets'"
    by (auto simp: update_user_activity_def Let_def split: sum.splits prod.splits)
  from update_networks_skip [OF n assms(2,3,4,5)] g1
  have s: "map_of (network_to_users g1) nk = Some ua" "map_of dues nk = None"
    by auto
  from s(2) have fresh: "nk \<notin> fst ` set dues"
    by (simp add: map_of_eq_None_iff)
  from purge_inactive_users_other_networks [OF p fresh] s(1)
  have final: "map_of (network_to_users g') nk = Some ua" by simp
  have around: "\<exists>n1 d1 p1 n2 d2 p2.
                   update_networks env api True t before = Inr (n1, d1, p1)
                 \<and> update_networks env api True t after = Inr (n2, d2, p2)
                 \<and> c1 = p1 @ [?lookup] @ p2"
    if "network_to_users g = before @ (nk, ua) # after" for before after
    using update_networks_around_skipped [OF _ assms(4,5), of t before ua after nets' dues c1]
      n that by simp
  have deact: "\<exists>k due. (k, due) \<in> set dues \<and> k \<noteq> nk \<and> u \<in> set due"
    if "Deactivate u \<in> set c2" for u
  proof -
    from purge_inactive_users_calls [OF p that] obtain k due where
      kd: "(k, due) \<in> set dues" "u \<in> set due" by blast
    with fresh have "k \<noteq> nk" by (auto simp: image_iff)
    with kd show ?thesis by blast
  qed
  have mid: "\<exists>g1 dues c1 c2.
              update_user_activity env api g t = Inr (g1, dues, c1)
            \<and> map_of dues nk = None
            \<and> map_of (network_to_users g1) nk = Some ua
            \<and> (\<forall>before after. network_to_users g = before @ (nk, ua) # after \<longrightarrow>
                  (\<exists>n1 d1 p1 n2 d2 p2.
                       update_networks env api True t before = Inr (n1, d1, p1)
                     \<and> update_networks env api True t after = Inr (n2, d2, p2)
                     \<and> c1 = p1 @ [?lookup] @ p2))
            \<and> calls = c1 @ c2
            \<and> (\<forall>u. Deactivate u \<in> set c2 \<longrightarrow>
                  (\<exists>k due. (k, due) \<in> set dues \<and> k \<noteq> nk \<and> u \<in> set due))"
    using u s around c deact by blast
  from step mid final show ?thesis by (intro conjI)
qed

lemma two_network_pass:
  "run_user_purger two_network_env two_network_api two_network_ledger 1000000 =
     Inr (\<lparr>last_update = 1000000,
           network_to_users = [(''1'', example_segment), (''5'', [(''@n:s'', 827199)])]\<rparr>,
          [GetRoomId ''#raiden_mainnet_discovery:s'', GetRoomId ''#raiden_goerli_discovery:s'',
           GetMembers ''!g:s'', GetPresence ''@a:s'', GetPresence ''@n:s'',
           Deactivate ''@a:s''])"
  by code_simp

theorem missing_room_skips_network_witness:
  "last_update two_network_ledger < 1000000 - USER_PURGING_THRESHOLD
   \<and> distinct (map fst (network_to_users two_network_ledger))
   \<and> map_of (network_to_users two_network_ledger) ''1'' = Some example_segment
   \<and> py_int two_network_env ''1'' = Some 1
   \<and> fst (get_discovery_room two_network_env two_network_api 1) = None
   \<and> run_user_purger two_network_env two_network_api two_network_ledger 1000000 =
       Inr (\<lparr>last_update = 1000000,
             network_to_users = [(''1'', example_segment), (''5'', [(''@n:s'', 827199)])]\<rparr>,
            [GetRoomId ''#raiden_mainnet_discovery:s'', GetRoomId ''#raiden_goerli_discovery:s'',
             GetMembers ''!g:s'', GetPresence ''@a:s'', GetPresence ''@n:s'',
             Deactivate ''@a:s''])
   \<and> network_step two_network_env two_network_api True 1000000 ''1'' example_segment =
       Inr (example_segment, None, [GetRoomId ''#raiden_mainnet_discovery:s''])
   \<and> map_of (network_to_users
        \<lparr>last_update = 1000000,
         network_to_users = [(''1'', example_segment), (''5'', [(''@n:s'', 827199)])]\<rparr>) ''1''
       = Some example_segment"
proof -
  have h1: "last_update two_network_ledger < 1000000 - USER_PURGING_THRESHOLD"
    by (simp add: two_network_ledger_def USER_PURGING_THRESHOLD_def)
  have h2: "distinct (map fst (network_to_users two_network_ledger))"
    by (simp add: two_network_ledger_def)
  have h3: "map_of (network_to_users two_network_ledger) ''1'' = Some example_segment"
    by (simp add: two_network_ledger_def)
  have h4: "py_int two_network_env ''1'' = Some 1"
    by (simp add: two_network_env_def)
  have h5: "fst (get_discovery_room two_network_env two_network_api 1) = None"
    by (simp add: get_discovery_room_def two_network_env_def two_network_api_def example_api_def)
  have a: "''#'' @ make_room_alias two_network_env 1 @ '':'' @ netloc two_network_api
             = ''#raiden_mainnet_discovery:s''"
    by (simp add: two_network_env_def two_network_api_def example_api_def)
  from missing_room_skips_network [OF h1 h2 h3 h4 h5 two_network_pass]
  have "network_step two_network_env two_network_api True 1000000 ''1'' example_segment =
          Inr (example_segment, None, [GetRoomId ''#raiden_mainnet_discovery:s''])"
    and "map_of (network_to_users
        \<lparr>last_update = 1000000,
         network_to_users = [(''1'', example_segment), (''5'', [(''@n:s'', 827199)])]\<rparr>) ''1''
       = Some example_segment"
    unfolding a by blast+
  with h1 h2 h3 h4 h5 two_network_pass show ?thesis by (intro conjI)
qed

section \<open>The purge of a due list of the segment\<close>





section \<open>The members a sync inserts\<close>







end
